theory Spec2Isabelle
  imports Main "HOL-Library.Word"
begin

section \<open>Go runtime values\<close>

text \<open>
  A Go call either returns or panics. Errors returned as values (\<open>error\<close>) and panics
  are both kept as values of the model; a panic is never identified with an error return.
\<close>

datatype go_error = Panic string | Failure string

type_synonym byte = "8 word"

text \<open>Go's \<open>int\<close> on a 64-bit platform, \<open>int32\<close> and \<open>uint32\<close>.\<close>

type_synonym go_int = "64 word"
type_synonym int32 = "32 word"
type_synonym uint32 = "32 word"

text \<open>\<open>xs[i]\<close> on a slice: a run-time panic when the index is out of range.\<close>

definition index_at :: "'a list \<Rightarrow> int \<Rightarrow> go_error + 'a" where
  "index_at xs i =
     (if 0 \<le> i \<and> i < int (length xs) then Inr (xs ! nat i)
      else Inl (Panic ''index out of range''))"

text \<open>
  \<open>rand.Int31n(n)\<close>: panics if \<open>n <= 0\<close>, otherwise returns some value in \<open>[0, n)\<close>.
  The state of the generator is the parameter \<open>seed\<close>: every value of the range is
  the result for some seed.
\<close>

definition Int31n :: "nat \<Rightarrow> int32 \<Rightarrow> go_error + int32" where
  "Int31n seed n =
     (if sint n \<le> 0 then Inl (Panic ''invalid argument to Int31n'')
      else Inr (word_of_int (int seed mod sint n)))"

section \<open>DNS messages\<close>

text \<open>The parts of a \<open>dns.Msg\<close> that the server reads or writes.\<close>

definition ClassINET :: "16 word" where "ClassINET = 1"
definition TypeA :: "16 word" where "TypeA = 1"

record Question =
  q_Name :: string
  Qtype :: "16 word"
  Qclass :: "16 word"

text \<open>
  A resource record is an interface value: a header and a concrete type. The header's
  \<open>Rrtype\<close> is a field of its own, the concrete type is what a type assertion
  \<open>a.(*dns.A)\<close> tests.
\<close>

datatype rr_body = A "byte list" | CNAME string | OtherRR

record RR =
  hdr_Name :: string
  Rrtype :: "16 word"
  Class :: "16 word"
  Ttl :: uint32
  body :: rr_body

record Msg =
  Id :: "16 word"
  Question :: "Question list"
  Answer :: "RR list"

text \<open>
  \<open>*dns.Msg\<close> values are pointers into a store of messages: two holders of the same
  pointer see each other's writes.
\<close>

type_synonym msg_ptr = nat

record msg_store =
  cells :: "msg_ptr \<Rightarrow> Msg"
  next_free :: msg_ptr


text \<open>\<open>strings.TrimSuffix(s, ".")\<close>\<close>

definition TrimSuffix_dot :: "string \<Rightarrow> string" where
  "TrimSuffix_dot s = (if s \<noteq> [] \<and> last s = CHR ''.'' then butlast s else s)"

section \<open>The DNS server\<close>

record dnsResolver =
  addr :: string
  client_Net :: string

text \<open>Times are readings of the monotonic clock, in nanoseconds.\<close>

type_synonym time = int

definition Second :: int where "Second = 1000000000"

record dnsCacheEntry =
  response :: msg_ptr
  halfTtl :: time
  ttl :: time

type_synonym dnsCache = "string \<rightharpoonup> dnsCacheEntry"

datatype RoutingMgr = RoutingMgrRef nat
datatype PacListMgr = PacListMgrRef nat
datatype ProxyClient = ProxyClientRef nat

record DnsConfig =
  ListenAddr :: string
  LocalResolver :: "string list"
  ProxyResolver :: "string list"
  Cache :: bool
  Timeout :: go_int
  SendNum :: go_int

record DnsServer =
  routingMgr :: RoutingMgr
  pacMgr :: PacListMgr
  server_Addr :: string
  localResolver :: "dnsResolver list"
  remoteResolver :: "dnsResolver list"
  proxyClient :: "ProxyClient option"
  sendNum :: int32
  dnsCaches :: "dnsCache option"
  timeout :: "64 word"

subsection \<open>The cache\<close>

text \<open>
  \<open>AddDnsCache\<close> reads the clock twice (\<open>now1\<close> for the half deadline, \<open>now2\<close> for the
  full one). \<open>ttl >> 1\<close> is a shift of the unsigned 32-bit value; the products with
  \<open>time.Second\<close> stay below \<open>2^63\<close>.
\<close>

definition AddDnsCache :: "DnsServer \<Rightarrow> time \<Rightarrow> time \<Rightarrow> string \<Rightarrow> msg_ptr \<Rightarrow> uint32 \<Rightarrow> DnsServer" where
  "AddDnsCache c now1 now2 domain resp t =
     (case dnsCaches c of
        None \<Rightarrow> c
      | Some caches \<Rightarrow>
          c\<lparr>dnsCaches := Some (caches(domain \<mapsto>
               \<lparr>response = resp,
                halfTtl = now1 + uint (drop_bit 1 t) * Second,
                ttl = now2 + uint t * Second\<rparr>))\<rparr>)"

definition DelDnsCache :: "DnsServer \<Rightarrow> string \<Rightarrow> DnsServer" where
  "DelDnsCache c domain =
     (case dnsCaches c of
        None \<Rightarrow> c
      | Some caches \<Rightarrow> c\<lparr>dnsCaches := Some (caches(domain := None))\<rparr>)"

text \<open>
  \<open>GetDnsCache\<close> returns the message pointer (\<open>None\<close> is \<open>nil\<close>), the refresh flag and
  the server with its cache as the call leaves it. \<open>now.Before(t)\<close> is \<open>now < t\<close> and
  \<open>now.After(t)\<close> is \<open>t < now\<close>.
\<close>

definition GetDnsCache :: "DnsServer \<Rightarrow> time \<Rightarrow> string \<Rightarrow> (msg_ptr option \<times> bool) \<times> DnsServer" where
  "GetDnsCache c now domain =
     (case dnsCaches c of
        None \<Rightarrow> ((None, False), c)
      | Some caches \<Rightarrow>
          (case caches domain of
             None \<Rightarrow> ((None, False), c)
           | Some res \<Rightarrow>
               if now < ttl res then ((Some (response res), halfTtl res < now), c)
               else ((None, False), c\<lparr>dnsCaches := Some (caches(domain := None))\<rparr>)))"

subsection \<open>Start and reload\<close>

text \<open>\<open>strings.Index(addr, ":") >= 0\<close> holds exactly when the address contains a colon.\<close>

definition mkResolver :: "string \<Rightarrow> dnsResolver" where
  "mkResolver a =
     (if CHR '':'' \<in> set a then \<lparr>addr = a, client_Net = ''udp''\<rparr>
      else \<lparr>addr = a @ '':53'', client_Net = ''udp''\<rparr>)"

definition StartDnsServer ::
    "DnsConfig \<Rightarrow> PacListMgr option \<Rightarrow> RoutingMgr option \<Rightarrow> ProxyClient option \<Rightarrow> go_error + DnsServer" where
  "StartDnsServer dnsConfig pacMgr' routingMgr' proxyClient' =
     (case routingMgr' of
        None \<Rightarrow> Inl (Failure ''Routing manager is nil'')
      | Some rm \<Rightarrow>
     (case pacMgr' of
        None \<Rightarrow> Inl (Failure ''Pac list manager is nil'')
      | Some pm \<Rightarrow>
          (let conv = (ucast (SendNum dnsConfig) :: int32) in
           Inr \<lparr>routingMgr = rm, pacMgr = pm,
                server_Addr = ListenAddr dnsConfig,
                localResolver = map mkResolver (LocalResolver dnsConfig),
                remoteResolver = map mkResolver (ProxyResolver dnsConfig),
                proxyClient = proxyClient',
                sendNum = (if sint conv < 1 then 1 else conv),
                dnsCaches = (if Cache dnsConfig then Some Map.empty else None),
                timeout = Timeout dnsConfig * word_of_int Second\<rparr>)))"

definition Reload :: "DnsServer \<Rightarrow> DnsConfig \<Rightarrow> DnsServer" where
  "Reload c dnsConfig =
     (let sendNum' = (if sint (SendNum dnsConfig) < 1 then 1 else SendNum dnsConfig) in
      c\<lparr>localResolver := map mkResolver (LocalResolver dnsConfig),
        remoteResolver := map mkResolver (ProxyResolver dnsConfig),
        dnsCaches := (if Cache dnsConfig
                      then (case dnsCaches c of None \<Rightarrow> Some Map.empty | Some m \<Rightarrow> Some m)
                      else None),
        sendNum := ucast sendNum'\<rparr>)"

subsection \<open>Resolver selection\<close>

definition getResolver :: "DnsServer \<Rightarrow> bool \<Rightarrow> nat \<Rightarrow> go_error + dnsResolver" where
  "getResolver c bIsRemote seed =
     (if bIsRemote then
        (let len = length (remoteResolver c) in
         if len = 1 then index_at (remoteResolver c) 0
         else (case Int31n seed (word_of_nat len) of
                 Inl e \<Rightarrow> Inl e
               | Inr i \<Rightarrow> index_at (remoteResolver c) (sint i)))
      else
        (let len = length (localResolver c) in
         if len = 1 then index_at (localResolver c) 0
         else (case Int31n seed (word_of_nat len) of
                 Inl e \<Rightarrow> Inl e
               | Inr i \<Rightarrow> index_at (localResolver c) (sint i))))"

subsection \<open>Serving a query\<close>


text \<open>
  The answers of the collaborators to one call of \<open>ServeDNS\<close>: \<open>pacMgr.CheckDomain\<close>,
  \<open>r.Pack()\<close>, \<open>proxyClient.ExchangeDNS\<close> (the decoded answer), the local resolver's
  \<open>ExchangeContext\<close>, the random generator, and the clock: \<open>lookup_now i\<close> is the reading
  of the lookup for question \<open>i\<close>, \<open>add_now1\<close> and \<open>add_now2\<close> the two readings of
  \<open>AddDnsCache\<close>.

  \<open>ServeDNS\<close> is the handler of the DNS server and runs as one task per query, next to
  the other queries and to \<open>Reload\<close>. What these do while a call is under way belongs to
  its world as well. A message that the cache points to is shared, and its transaction
  id is written with no lock held: \<open>racing_id\<close> is the id that another query, served from
  the same cache entry, stores into the message between this call's own store and its
  \<open>WriteMsg\<close>, if there is one. \<open>meanwhile_resolve\<close> is what the other tasks have done
  to the server by the time the call takes the resolver lock, \<open>meanwhile_add\<close> what they
  have done, during the exchange through the tunnel, by the time it adds to the cache.
\<close>

record dns_world =
  check_domain :: "string \<Rightarrow> bool"
  pack :: "go_error + byte list"
  exchange_dns :: "go_error + Msg"
  exchange_local :: "go_error + Msg"
  seed :: nat
  lookup_now :: "nat \<Rightarrow> time"
  add_now1 :: time
  add_now2 :: time
  racing_id :: "16 word option"
  meanwhile_resolve :: "DnsServer \<Rightarrow> DnsServer"
  meanwhile_add :: "DnsServer \<Rightarrow> DnsServer"



text \<open>
  The loop of \<open>checkCache\<close> over the questions from question \<open>i\<close> on. On a hit the
  transaction id of the query is stored into the message the cache points to.
\<close>

fun checkCache_from ::
    "DnsServer \<Rightarrow> msg_store \<Rightarrow> 16 word \<Rightarrow> (nat \<Rightarrow> time) \<Rightarrow> nat \<Rightarrow> Question list \<Rightarrow>
       (msg_ptr option \<times> bool) \<times> DnsServer \<times> msg_store" where
  "checkCache_from c h rid clk i [] = ((None, False), c, h)"
| "checkCache_from c h rid clk i (q # qs) =
     (if Qclass q = ClassINET then
        (case GetDnsCache c (clk i) (TrimSuffix_dot (q_Name q)) of
           ((Some resDns, needRefreshCache), c') \<Rightarrow>
             ((Some resDns, needRefreshCache), c',
              h\<lparr>cells := (cells h)(resDns := (cells h resDns)\<lparr>Id := rid\<rparr>)\<rparr>)
         | ((None, needRefreshCache), c') \<Rightarrow> checkCache_from c' h rid clk (Suc i) qs)
      else checkCache_from c h rid clk (Suc i) qs)"

definition checkCache ::
    "DnsServer \<Rightarrow> msg_store \<Rightarrow> Msg \<Rightarrow> (nat \<Rightarrow> time) \<Rightarrow>
       (msg_ptr option \<times> bool) \<times> DnsServer \<times> msg_store" where
  "checkCache c h r clk =
     (if dnsCaches c \<noteq> None then checkCache_from c h (Id r) clk 0 (Question r)
      else ((None, False), c, h))"






subsection \<open>The operations on the cache\<close>

text \<open>The entry that the cache holds under a domain, if the cache is on and has one.\<close>

definition cached :: "DnsServer \<Rightarrow> string \<Rightarrow> dnsCacheEntry option" where
  "cached c k = (case dnsCaches c of None \<Rightarrow> None | Some m \<Rightarrow> m k)"

text \<open>
  The functions that read or write \<open>dnsCaches\<close> or a message it points to, as calls with
  their arguments, and what a call does to the server and the store of messages.
\<close>

datatype cache_op =
    OpAdd time time string msg_ptr uint32
  | OpDel string
  | OpGet time string
  | OpCheck Msg "nat \<Rightarrow> time"
  | OpReload DnsConfig

fun cache_run :: "cache_op \<Rightarrow> DnsServer \<times> msg_store \<Rightarrow> DnsServer \<times> msg_store" where
  "cache_run (OpAdd now1 now2 domain resp t) (c, h) = (AddDnsCache c now1 now2 domain resp t, h)"
| "cache_run (OpDel domain) (c, h) = (DelDnsCache c domain, h)"
| "cache_run (OpGet now domain) (c, h) = (snd (GetDnsCache c now domain), h)"
| "cache_run (OpCheck r clk) (c, h) = snd (checkCache c h r clk)"
| "cache_run (OpReload dnsConfig) (c, h) = (Reload c dnsConfig, h)"

text \<open>
  What a run of the lookup loop, started on server \<open>c\<close> and store \<open>h\<close>, leaves behind:
  the resolver lists are untouched, every entry still cached was cached before, and the
  store differs only in the transaction id of the message returned, which belongs to an
  entry that had not expired at the reading \<open>clk j\<close> of its lookup.
\<close>

definition lookup_effect ::
    "DnsServer \<Rightarrow> msg_store \<Rightarrow> 16 word \<Rightarrow> (nat \<Rightarrow> time) \<Rightarrow>
       (msg_ptr option \<times> bool) \<times> DnsServer \<times> msg_store \<Rightarrow> bool" where
  "lookup_effect c h rid clk out =
     (case out of ((x, flag), c', h') \<Rightarrow>
        remoteResolver c' = remoteResolver c \<and> localResolver c' = localResolver c \<and>
        (\<forall>m' k e. dnsCaches c' = Some m' \<and> m' k = Some e \<longrightarrow>
                    (\<exists>m. dnsCaches c = Some m \<and> m k = Some e)) \<and>
        (case x of
           None \<Rightarrow> h' = h \<and> \<not> flag
         | Some p \<Rightarrow>
             h' = h\<lparr>cells := (cells h)(p := (cells h p)\<lparr>Id := rid\<rparr>)\<rparr> \<and>
             (\<exists>j m e d. dnsCaches c' = Some m \<and> m d = Some e \<and> response e = p \<and>
                         clk j < ttl e \<and> flag = (halfTtl e < clk j))))"

section \<open>Slices and buffers\<close>

text \<open>
  \<open>xs[lo:hi]\<close>: a run-time panic unless \<open>0 <= lo <= hi <= cap(xs)\<close>. Every slice of the
  model has its capacity equal to its length.
\<close>

definition slice :: "'a list \<Rightarrow> int \<Rightarrow> int \<Rightarrow> go_error + 'a list" where
  "slice xs lo hi =
     (if 0 \<le> lo \<and> lo \<le> hi \<and> hi \<le> int (length xs)
      then Inr (take (nat (hi - lo)) (drop (nat lo) xs))
      else Inl (Panic ''slice bounds out of range''))"

text \<open>\<open>copy(dst, src)\<close>: the content of \<open>dst\<close> after the call.\<close>

definition copy :: "'a list \<Rightarrow> 'a list \<Rightarrow> 'a list" where
  "copy dst src = take (length dst) src @ drop (length src) dst"

text \<open>\<open>copy(buf[lo:hi], src)\<close> writes through to \<open>buf\<close>: the content of \<open>buf\<close> after the call.\<close>

definition copy_into :: "'a list \<Rightarrow> int \<Rightarrow> int \<Rightarrow> 'a list \<Rightarrow> go_error + 'a list" where
  "copy_into buf lo hi src =
     (case slice buf lo hi of
        Inl e \<Rightarrow> Inl e
      | Inr window \<Rightarrow> Inr (take (nat lo) buf @ copy window src @ drop (nat hi) buf))"

text \<open>The wrap-around of Go's 64-bit \<open>int\<close> on a sum of two lengths.\<close>

definition wrap64 :: "int \<Rightarrow> int" where
  "wrap64 x = (x + 2 ^ 63) mod 2 ^ 64 - 2 ^ 63"

text \<open>
  Modelled from the spec: \<open>common.LeakyBuffer\<close> is not among the sources. A pool of
  capacity \<open>capacity\<close> of buffers of \<open>bufSize\<close> bytes: \<open>Get\<close> returns a pooled buffer, or
  a fresh one if the pool is empty; \<open>Put\<close> discards the buffer if the pool is full and
  inserts it otherwise. Buffers are not zeroed on reuse.
\<close>

record LeakyBuffer =
  bufSize :: nat
  capacity :: nat
  free :: "byte list list"

definition Get :: "LeakyBuffer \<Rightarrow> byte list \<times> LeakyBuffer" where
  "Get p = (case free p of
              [] \<Rightarrow> (replicate (bufSize p) 0, p)
            | b # bs \<Rightarrow> (b, p\<lparr>free := bs\<rparr>))"

definition Put :: "LeakyBuffer \<Rightarrow> byte list \<Rightarrow> LeakyBuffer" where
  "Put p b = (if length (free p) < capacity p then p\<lparr>free := free p @ [b]\<rparr> else p)"

definition GetBufferSize :: "LeakyBuffer \<Rightarrow> int" where
  "GetBufferSize p = int (bufSize p)"

section \<open>The tunnel backend\<close>

text \<open>
  A socket is known by its identity; addresses by their textual form. A Go field name
  that ends in an underscore is written with a prime (\<open>src'\<close> is \<open>src_\<close>).
\<close>

type_synonym conn = nat

datatype KCPBackend = KCPBackendRef nat

record udpProxyEntry =
  src' :: conn
  dst' :: conn
  srcAddr' :: string
  header' :: "byte list"
  timeout' :: int

record proxyBackend =
  tcpAddr :: string
  udpAddr :: string
  networkType' :: string
  tcpTimeout' :: int
  udpTimeout' :: int
  udpNatMap' :: "string \<rightharpoonup> udpProxyEntry"
  dnsNatMap' :: "string \<rightharpoonup> conn"
  kcpBackend :: "KCPBackend option"

text \<open>
  What a call asks of the network, in program order. Concurrent tasks that a call starts
  are recorded by the event that starts them.
\<close>

datatype event =
    DialTCP string string
  | SetKeepAlive conn
  | StreamConn conn
  | GetKcpConn
  | SetWriteDeadline conn
  | Write conn "byte list"
  | CopyBothWays conn conn
  | Close conn
  | ListenPacket
  | PacketConn conn
  | DialTransparentUDP string
  | SpawnReader string udpProxyEntry
  | SetReadDeadline conn
  | WriteTo conn "byte list" string
  | ReadFrom conn
  | DnsNatAdd string conn
  | DnsNatDel string
  | PoolGet
  | PoolPut
  | Make nat

text \<open>
  The answers of the network and of the helpers outside this package to one call:
  \<open>network.ConvertShadowSocksAddr\<close>, \<open>net.ListenPacket\<close>, \<open>network.DialTransparentUDP\<close>,
  \<open>net.DialTCP\<close>, \<open>GetKcpConn\<close>, the writes, the datagram read, and the two
  \<open>io.Copy\<close> calls of a TCP relay (bytes copied and error), named by direction.
\<close>

record world =
  convert_addr :: "go_error + byte list"
  listen_packet :: "go_error + conn"
  dial_transparent :: "go_error + conn"
  dial_tcp :: "go_error + conn"
  get_kcp_conn :: "go_error + conn"
  write_result :: "go_error option"
  read_result :: "go_error + byte list"
  copy_to_client :: "int \<times> go_error option"
  copy_to_remote :: "int \<times> go_error option"

text \<open>\<open>errors.Wrap(err, msg)\<close>\<close>

fun Wrap :: "go_error \<Rightarrow> string \<Rightarrow> go_error" where
  "Wrap (Failure t) msg = Failure (msg @ '': '' @ t)"
| "Wrap (Panic t) msg = Panic t"

definition computeUDPKey :: "string \<Rightarrow> string \<Rightarrow> string" where
  "computeUDPKey src dst = src @ ''->'' @ dst"

definition createUDPProxyEntry ::
    "conn \<Rightarrow> conn \<Rightarrow> string \<Rightarrow> (go_error + byte list) \<Rightarrow> int \<Rightarrow> go_error + udpProxyEntry" where
  "createUDPProxyEntry src dst srcAddr conv t =
     (case conv of
        Inl e \<Rightarrow> Inl e
      | Inr a \<Rightarrow> Inr \<lparr>src' = src, dst' = dst, srcAddr' = srcAddr, header' = a, timeout' = t\<rparr>)"

subsection \<open>UDP relay\<close>

text \<open>
  The creation of a NAT entry (the branch \<open>udpProxy == nil\<close> of \<open>RelayUDPData\<close>). The
  reader task is started by \<open>SpawnReader\<close>; it is that task, not the caller, that adds
  the entry to the NAT map.
\<close>

definition newUDPProxy ::
    "proxyBackend \<Rightarrow> world \<Rightarrow> string \<Rightarrow> string \<Rightarrow> string \<Rightarrow> (go_error + udpProxyEntry) \<times> event list" where
  "newUDPProxy c w udpKey srcAddr dstAddr =
     (case listen_packet w of
        Inl e \<Rightarrow> (Inl (Wrap e ''UDP proxy listen local failed''), [ListenPacket])
      | Inr dstConn \<Rightarrow>
     (case dial_transparent w of
        Inl e \<Rightarrow> (Inl (Wrap e ''UDP proxy listen using transparent failed''),
                  [ListenPacket, PacketConn dstConn, DialTransparentUDP dstAddr, Close dstConn])
      | Inr srcConn \<Rightarrow>
     (case createUDPProxyEntry srcConn dstConn srcAddr (convert_addr w) (udpTimeout' c) of
        Inl e \<Rightarrow> (Inl (Wrap e ''Create udp proxy entry failed''),
                  [ListenPacket, PacketConn dstConn, DialTransparentUDP dstAddr,
                   Close dstConn, Close srcConn])
      | Inr udpProxy \<Rightarrow>
          (Inr udpProxy,
           [ListenPacket, PacketConn dstConn, DialTransparentUDP dstAddr,
            SpawnReader udpKey udpProxy]))))"

text \<open>The entry the datagram goes through: the one in the NAT map, or a new one.\<close>

definition obtainUDPProxy ::
    "proxyBackend \<Rightarrow> world \<Rightarrow> string \<Rightarrow> string \<Rightarrow> string \<Rightarrow> (go_error + udpProxyEntry) \<times> event list" where
  "obtainUDPProxy c w udpKey srcAddr dstAddr =
     (case udpNatMap' c udpKey of
        Some entry \<Rightarrow> (Inr entry, [])
      | None \<Rightarrow> newUDPProxy c w udpKey srcAddr dstAddr)"

text \<open>
  \<open>make([]byte, n)\<close>: a run-time panic (\<open>makeslice: len out of range\<close>) if \<open>n\<close> is
  negative or exceeds what the runtime can allocate, \<open>2^48\<close> bytes on 64-bit Linux;
  otherwise \<open>n\<close> zero bytes.
\<close>

definition maxAlloc :: int where
  "maxAlloc = 2 ^ 48"

definition make_bytes :: "int \<Rightarrow> go_error + byte list" where
  "make_bytes n =
     (if n < 0 \<or> maxAlloc < n then Inl (Panic ''makeslice: len out of range'')
      else Inr (replicate (nat n) 0))"

text \<open>
  The send with a one-shot buffer (the branch \<open>totalLen > leakyBuffer.GetBufferSize()\<close>).
  \<open>data\<close> is \<open>data.Bytes()\<close>. \<open>Make n\<close> records an allocation that was made.
\<close>

definition sendOneShot ::
    "world \<Rightarrow> udpProxyEntry \<Rightarrow> string \<Rightarrow> byte list \<Rightarrow> int \<Rightarrow> int \<Rightarrow> int \<Rightarrow> (go_error + unit) \<times> event list" where
  "sendOneShot w udpProxy remote data dataLen headerLen totalLen =
     (case make_bytes totalLen of
        Inl p \<Rightarrow> (Inl p, [])
      | Inr writeData0 \<Rightarrow>
     (case copy_into writeData0 0 headerLen (header' udpProxy) of
        Inl p \<Rightarrow> (Inl p, [Make (nat totalLen)])
      | Inr writeData1 \<Rightarrow>
     (case slice writeData1 headerLen totalLen of
        Inl p \<Rightarrow> (Inl p, [Make (nat totalLen)])
      | Inr window \<Rightarrow>
     (case slice data 0 dataLen of
        Inl p \<Rightarrow> (Inl p, [Make (nat totalLen)])
      | Inr payload \<Rightarrow>
     (case copy_into writeData1 headerLen totalLen payload of
        Inl p \<Rightarrow> (Inl p, [Make (nat totalLen)])
      | Inr writeData \<Rightarrow>
          (case write_result w of
             Some e \<Rightarrow> (Inl e, [Make (nat totalLen), WriteTo (dst' udpProxy) writeData remote])
           | None \<Rightarrow> (Inr (), [Make (nat totalLen), WriteTo (dst' udpProxy) writeData remote])))))))"

text \<open>The send with a pooled buffer (the \<open>else\<close> branch); \<open>Put\<close> is deferred.\<close>

definition sendPooled ::
    "world \<Rightarrow> udpProxyEntry \<Rightarrow> string \<Rightarrow> LeakyBuffer \<Rightarrow> byte list \<Rightarrow> int \<Rightarrow> int \<Rightarrow> int \<Rightarrow>
       (go_error + unit) \<times> LeakyBuffer \<times> event list" where
  "sendPooled w udpProxy remote leakyBuffer data dataLen headerLen totalLen =
     (let (newBuffer, pool1) = Get leakyBuffer;
          buffer1 = copy newBuffer (header' udpProxy) in
      (case slice buffer1 headerLen (int (length buffer1)) of
         Inl p \<Rightarrow> (Inl p, Put pool1 buffer1, [PoolGet, PoolPut])
       | Inr window \<Rightarrow>
      (case slice data 0 dataLen of
         Inl p \<Rightarrow> (Inl p, Put pool1 buffer1, [PoolGet, PoolPut])
       | Inr payload \<Rightarrow>
      (case copy_into buffer1 headerLen (int (length buffer1)) payload of
         Inl p \<Rightarrow> (Inl p, Put pool1 buffer1, [PoolGet, PoolPut])
       | Inr buffer2 \<Rightarrow>
      (case slice buffer2 0 totalLen of
         Inl p \<Rightarrow> (Inl p, Put pool1 buffer2, [PoolGet, PoolPut])
       | Inr out \<Rightarrow>
           (case write_result w of
              Some e \<Rightarrow> (Inl e, Put pool1 buffer2, [PoolGet, WriteTo (dst' udpProxy) out remote, PoolPut])
            | None \<Rightarrow> (Inr (), Put pool1 buffer2, [PoolGet, WriteTo (dst' udpProxy) out remote, PoolPut])))))))"

definition RelayUDPData ::
    "proxyBackend \<Rightarrow> world \<Rightarrow> string \<Rightarrow> string \<Rightarrow> LeakyBuffer \<Rightarrow> byte list \<Rightarrow> int \<Rightarrow>
       (go_error + unit) \<times> LeakyBuffer \<times> event list" where
  "RelayUDPData c w srcAddr dstAddr leakyBuffer data dataLen =
     (let udpKey = computeUDPKey srcAddr dstAddr in
      (case obtainUDPProxy c w udpKey srcAddr dstAddr of
         (Inl e, evs) \<Rightarrow> (Inl e, leakyBuffer, evs)
       | (Inr udpProxy, evs) \<Rightarrow>
           (let headerLen = int (length (header' udpProxy));
                totalLen = wrap64 (headerLen + dataLen) in
            if totalLen > GetBufferSize leakyBuffer then
              (let (r, evs') = sendOneShot w udpProxy (udpAddr c) data dataLen headerLen totalLen
               in (r, leakyBuffer, evs @ [SetReadDeadline (dst' udpProxy)] @ evs'))
            else
              (let (r, pool', evs') =
                     sendPooled w udpProxy (udpAddr c) leakyBuffer data dataLen headerLen totalLen
               in (r, pool', evs @ [SetReadDeadline (dst' udpProxy)] @ evs')))))"

subsection \<open>DNS exchange\<close>

text \<open>
  \<open>ReadFrom(buf)\<close> of a datagram: the number of bytes read and the buffer afterwards.
\<close>

definition read_into :: "byte list \<Rightarrow> byte list \<Rightarrow> int \<times> byte list" where
  "read_into buf dgram = (int (min (length dgram) (length buf)), copy buf dgram)"

text \<open>
  \<open>RelayDNS\<close> from the write to the remote on; the deferred calls are run by the caller
  below. Returns the response, the buffer as the exchange leaves it, and the events.
\<close>

definition exchangeDNS ::
    "world \<Rightarrow> conn \<Rightarrow> string \<Rightarrow> byte list \<Rightarrow> int \<Rightarrow> int \<Rightarrow> (go_error + byte list) \<times> byte list \<times> event list" where
  "exchangeDNS w dstConn remote buffer addrLen totalLen =
     (case slice buffer 0 totalLen of
        Inl p \<Rightarrow> (Inl p, buffer, [])
      | Inr out \<Rightarrow>
     (case write_result w of
        Some e \<Rightarrow> (Inl (Wrap e ''Write to remote DNS failed''), buffer, [WriteTo dstConn out remote])
      | None \<Rightarrow>
     (case read_result w of
        Inl e \<Rightarrow> (Inl e, buffer, [WriteTo dstConn out remote, SetReadDeadline dstConn, ReadFrom dstConn])
      | Inr dgram \<Rightarrow>
          (let (n, buffer') = read_into buffer dgram;
               evs = [WriteTo dstConn out remote, SetReadDeadline dstConn, ReadFrom dstConn] in
           if n \<le> addrLen then (Inl (Failure ''Read DNS query empty''), buffer', evs)
           else (case slice buffer' addrLen n of
                   Inl p \<Rightarrow> (Inl p, buffer', evs)
                 | Inr tail \<Rightarrow> (Inr (copy (replicate (nat n) 0) tail), buffer', evs))))))"

definition RelayDNS ::
    "proxyBackend \<Rightarrow> world \<Rightarrow> string \<Rightarrow> string \<Rightarrow> byte list \<Rightarrow> LeakyBuffer \<Rightarrow> int \<Rightarrow>
       (go_error + byte list) \<times> proxyBackend \<times> LeakyBuffer \<times> event list" where
  "RelayDNS c w srcAddr dnsAddr data leakyBuffer dnsTimeout =
     (case convert_addr w of
        Inl e \<Rightarrow> (Inl (Wrap e ''DNS convert to shadowsocks addr failed''), c, leakyBuffer, [])
      | Inr addrBytes \<Rightarrow>
          (let dataLen = int (length data);
               addrLen = int (length addrBytes);
               totalLen = wrap64 (addrLen + dataLen);
               (buffer, pool1) = Get leakyBuffer;
               buffer1 = copy buffer addrBytes in
           (case copy_into buffer1 addrLen (int (length buffer1)) data of
              Inl p \<Rightarrow> (Inl p, c, Put pool1 buffer1, [PoolGet, PoolPut])
            | Inr buffer2 \<Rightarrow>
           (case (case dnsNatMap' c srcAddr of
                    Some d \<Rightarrow> Inr (d, c, [])
                  | None \<Rightarrow>
                      (case listen_packet w of
                         Inl e \<Rightarrow> Inl e
                       | Inr d \<Rightarrow> Inr (d, c\<lparr>dnsNatMap' := (dnsNatMap' c)(srcAddr \<mapsto> d)\<rparr>,
                                       [ListenPacket, PacketConn d, DnsNatAdd srcAddr d]))) of
              Inl e \<Rightarrow> (Inl (Wrap e ''UDP proxy listen local failed''), c, Put pool1 buffer2,
                        [PoolGet, ListenPacket, PoolPut])
            | Inr (dstConn, c1, evs) \<Rightarrow>
                (let (r, buffer3, evs') = exchangeDNS w dstConn (udpAddr c) buffer2 addrLen totalLen
                 in (r, c1\<lparr>dnsNatMap' := (dnsNatMap' c1)(srcAddr := None)\<rparr>, Put pool1 buffer3,
                     [PoolGet] @ evs @ evs' @ [DnsNatDel srcAddr, Close dstConn, PoolPut]))))))"

subsection \<open>TCP relay\<close>







subsection \<open>The two copies of a plain relay, as tasks\<close>










subsection \<open>A NAT entry, its reader task and \<open>Stop\<close>\<close>













subsection \<open>What the program counters of the tasks imply\<close>













section \<open>Example values\<close>

definition example_server :: DnsServer where
  "example_server =
     \<lparr>routingMgr = RoutingMgrRef 0, pacMgr = PacListMgrRef 0, server_Addr = '':53'',
      localResolver = [],
      remoteResolver = [\<lparr>addr = ''8.8.8.8:53'', client_Net = ''udp''\<rparr>,
                        \<lparr>addr = ''1.1.1.1:53'', client_Net = ''udp''\<rparr>],
      proxyClient = Some (ProxyClientRef 0), sendNum = 1,
      dnsCaches = Some Map.empty, timeout = 5000000000\<rparr>"

text \<open>
  The server after an answer with TTL 300 s for \<open>example.com\<close>, stored as message 0, was
  cached at time 0.
\<close>

definition cached_server :: DnsServer where
  "cached_server = AddDnsCache example_server 0 0 ''example.com'' 0 300"

text \<open>
  A store whose message 0 is the cached answer for \<open>example.com\<close>, decoded from a reply
  with transaction id 1, and a query for \<open>example.com\<close> with transaction id \<open>rid\<close>.
\<close>

definition example_question :: Question where
  "example_question = \<lparr>q_Name = ''example.com.'', Qtype = TypeA, Qclass = ClassINET\<rparr>"

definition example_answer :: Msg where
  "example_answer =
     \<lparr>Id = 1, Question = [example_question],
      Answer = [\<lparr>hdr_Name = ''example.com.'', Rrtype = TypeA, Class = ClassINET, Ttl = 300,
                 body = A [93, 184, 216, 34]\<rparr>]\<rparr>"

definition example_store :: msg_store where
  "example_store = \<lparr>cells = (\<lambda>p. \<lparr>Id = 0, Question = [], Answer = []\<rparr>)(0 := example_answer),
                     next_free = 1\<rparr>"

definition example_query :: "16 word \<Rightarrow> Msg" where
  "example_query rid = \<lparr>Id = rid, Question = [example_question], Answer = []\<rparr>"

text \<open>
  Collaborators for one query: \<open>example.com\<close> is on the policy list, the query packs
  to two bytes, the tunnel answers with \<open>example_answer\<close>, every lookup reads the
  clock at \<open>now\<close>, and no other task does anything meanwhile.
\<close>

definition example_dns_world :: "time \<Rightarrow> dns_world" where
  "example_dns_world now =
     \<lparr>check_domain = (\<lambda>name. name = ''example.com''), pack = Inr [18, 52],
      exchange_dns = Inr example_answer, exchange_local = Inl (Failure ''timeout''),
      seed = 0, lookup_now = (\<lambda>i. now), add_now1 = now, add_now2 = now,
      racing_id = None, meanwhile_resolve = (\<lambda>c. c), meanwhile_add = (\<lambda>c. c)\<rparr>"

text \<open>
  A backend for the remote 10.0.0.1:8388 with empty NAT maps and no mux transport, a pool
  of 16-byte buffers, and the header of 8.8.8.8:53.
\<close>

definition example_backend :: proxyBackend where
  "example_backend =
     \<lparr>tcpAddr = ''10.0.0.1:8388'', udpAddr = ''10.0.0.1:8388'', networkType' = ''tcp4'',
      tcpTimeout' = 60 * Second, udpTimeout' = 60 * Second,
      udpNatMap' = Map.empty, dnsNatMap' = Map.empty, kcpBackend = None\<rparr>"

definition small_pool :: LeakyBuffer where
  "small_pool = \<lparr>bufSize = 16, capacity = 4, free = []\<rparr>"

definition header_8888 :: "byte list" where
  "header_8888 = [1, 8, 8, 8, 8, 0, 53]"

text \<open>
  A network where every call succeeds; the datagram that comes back from the tunnel is
  the header followed by the two bytes AA BB.
\<close>

definition example_world :: world where
  "example_world =
     \<lparr>convert_addr = Inr header_8888, listen_packet = Inr 1, dial_transparent = Inr 2,
      dial_tcp = Inr 3, get_kcp_conn = Inl (Failure ''no stream''),
      write_result = None, read_result = Inr (header_8888 @ [170, 187]),
      copy_to_client = (1000, None), copy_to_remote = (200, None)\<rparr>"





section \<open>Properties of the DNS server\<close>

subsection \<open>Send count\<close>

lemma StartDnsServer_sendNum:
  "StartDnsServer dnsConfig pm rm pc = Inr s \<Longrightarrow> 1 \<le> sint (sendNum s)"
  by (auto simp: StartDnsServer_def Let_def split: option.splits)

text \<open>
  C10. After \<open>StartDnsServer\<close> the send count is at least 1 for every configuration
  (\<open>StartDnsServer_sendNum\<close>: the value is converted to \<open>int32\<close> and then clamped).
  \<open>Reload\<close> clamps first and converts afterwards: for the configured value \<open>2^32\<close>
  the clamp leaves the value alone and the conversion to \<open>int32\<close> stores 0.
\<close>

theorem Reload_sendNum_truncated:
  "sint (sendNum (Reload c (dnsConfig\<lparr>SendNum := 4294967296\<rparr>))) = 0"
  by (simp add: Reload_def Let_def)

subsection \<open>Resolver selection\<close>

lemma sint_int32_of_int: "0 \<le> x \<Longrightarrow> x < 2 ^ 31 \<Longrightarrow> sint (word_of_int x :: int32) = x"
  by (simp add: signed_of_int signed_take_bit_int_eq_self)

lemma sint_int32_of_nat: "n < 2 ^ 31 \<Longrightarrow> sint (word_of_nat n :: int32) = int n"
  by (simp add: signed_of_nat signed_take_bit_int_eq_self)

lemma Int31n_range:
  assumes "0 < sint n"
  shows "\<exists>i. Int31n sd n = Inr i \<and> 0 \<le> sint i \<and> sint i < sint n"
proof -
  let ?r = "int sd mod sint n"
  have r: "0 \<le> ?r" "?r < sint n" using assms by simp_all
  have "sint n < 2 ^ 31" using sint_lt [of n] by simp
  with r have "sint (word_of_int ?r :: int32) = ?r" by (intro sint_int32_of_int) simp_all
  with r assms show ?thesis by (simp add: Int31n_def)
qed

lemma index_at_member:
  "0 \<le> i \<Longrightarrow> i < int (length xs) \<Longrightarrow> \<exists>x \<in> set xs. index_at xs i = Inr x"
  by (simp add: index_at_def)

lemma pick_member:
  assumes "rs \<noteq> []" and "length rs < 2 ^ 31"
  shows "\<exists>r \<in> set rs.
           (let len = length rs in
            if len = 1 then index_at rs 0
            else (case Int31n sd (word_of_nat len) of
                    Inl e \<Rightarrow> Inl e
                  | Inr i \<Rightarrow> index_at rs (sint i))) = Inr r"
proof (cases "length rs = 1")
  case True
  then show ?thesis using index_at_member [of 0 rs] by simp
next
  case False
  have len: "sint (word_of_nat (length rs) :: int32) = int (length rs)"
    using assms(2) by (rule sint_int32_of_nat)
  with assms(1) have "0 < sint (word_of_nat (length rs) :: int32)" by simp
  from Int31n_range [OF this, of sd] obtain i where
    i: "Int31n sd (word_of_nat (length rs)) = Inr i" "0 \<le> sint i" "sint i < int (length rs)"
    using len by auto
  from index_at_member [OF i(2,3)] i(1) False show ?thesis by (simp add: Let_def)
qed

text \<open>
  C9. \<open>getResolver\<close> on a non-empty selected list (of a length that fits \<open>int32\<close>, as
  the conversion \<open>int32(length)\<close> of the code requires) returns an element of that list,
  whatever the random generator does; on an empty selected list it panics in
  \<open>rand.Int31n\<close> and returns nothing.
\<close>

theorem getResolver_selects:
  "(let rs = (if bIsRemote then remoteResolver c else localResolver c) in
     (rs \<noteq> [] \<and> length rs < 2 ^ 31 \<longrightarrow> (\<exists>r \<in> set rs. getResolver c bIsRemote sd = Inr r)) \<and>
     (rs = [] \<longrightarrow> getResolver c bIsRemote sd = Inl (Panic ''invalid argument to Int31n'')))"
  using pick_member [of "remoteResolver c" sd] pick_member [of "localResolver c" sd]
  by (auto simp: getResolver_def Let_def Int31n_def)

theorem getResolver_selects_witness:
  "remoteResolver example_server \<noteq> [] \<and> length (remoteResolver example_server) < 2 ^ 31 \<and>
   (\<exists>r \<in> set (remoteResolver example_server). getResolver example_server True 3 = Inr r) \<and>
   localResolver example_server = [] \<and>
   getResolver example_server False 3 = Inl (Panic ''invalid argument to Int31n'')"
proof -
  have r: "length (remoteResolver example_server) = 2" and l: "localResolver example_server = []"
    by (simp_all add: example_server_def)
  from r have n: "remoteResolver example_server \<noteq> []" by auto
  show ?thesis
    using getResolver_selects [of True example_server 3]
      getResolver_selects [of False example_server 3] r l n
    by (simp add: Let_def)
qed

subsection \<open>Cache lookup\<close>

text \<open>
  C3, as the claim states it, fails where \<open>now\<close> equals \<open>halfTtl\<close>: the entry cached at
  time 0 with TTL 300 s has \<open>halfTtl\<close> = 150 s and \<open>ttl\<close> = 300 s, and the lookup at
  150 s returns the cached message with the refresh flag clear.
\<close>

theorem GetDnsCache_at_halfTtl:
  "dnsCaches cached_server =
     Some [''example.com'' \<mapsto> \<lparr>response = 0, halfTtl = 150000000000, ttl = 300000000000\<rparr>] \<and>
   fst (GetDnsCache cached_server 150000000000 ''example.com'') = (Some 0, False)"
  by (simp add: cached_server_def example_server_def AddDnsCache_def Second_def GetDnsCache_def)

text \<open>
  C3, amended. For a lookup of a present entry at time \<open>now\<close>: if \<open>now \<ge> ttl\<close> the entry
  is removed and the lookup is a miss; if \<open>halfTtl < now < ttl\<close> the cached message is
  returned with the refresh flag set; if \<open>now \<le> halfTtl\<close> and \<open>now < ttl\<close> it is returned
  with the flag clear, and the cache is unchanged on both hits.
\<close>

theorem GetDnsCache_lookup:
  assumes "dnsCaches c = Some caches" and "caches domain = Some e"
  shows "(ttl e \<le> now \<longrightarrow>
            GetDnsCache c now domain =
              ((None, False), c\<lparr>dnsCaches := Some (caches(domain := None))\<rparr>)) \<and>
         (halfTtl e < now \<and> now < ttl e \<longrightarrow>
            GetDnsCache c now domain = ((Some (response e), True), c)) \<and>
         (now \<le> halfTtl e \<and> now < ttl e \<longrightarrow>
            GetDnsCache c now domain = ((Some (response e), False), c))"
  using assms by (simp add: GetDnsCache_def)

theorem GetDnsCache_lookup_witness:
  "GetDnsCache cached_server 300000000000 ''example.com'' =
     ((None, False), cached_server\<lparr>dnsCaches := Some Map.empty\<rparr>) \<and>
   GetDnsCache cached_server 200000000000 ''example.com'' = ((Some 0, True), cached_server) \<and>
   GetDnsCache cached_server 100000000000 ''example.com'' = ((Some 0, False), cached_server)"
proof -
  let ?e = "\<lparr>response = 0, halfTtl = 150000000000, ttl = 300000000000\<rparr>"
  let ?m = "[''example.com'' \<mapsto> ?e]"
  have c: "dnsCaches cached_server = Some ?m"
    by (simp add: cached_server_def example_server_def AddDnsCache_def Second_def)
  have e: "?m ''example.com'' = Some ?e"
    by simp
  have m: "?m(''example.com'' := None) = Map.empty"
    by simp
  show ?thesis
    using GetDnsCache_lookup [OF c e, of 300000000000]
      GetDnsCache_lookup [OF c e, of 200000000000]
      GetDnsCache_lookup [OF c e, of 100000000000]
    unfolding m by simp
qed

subsection \<open>Cache hits and the stored message\<close>

lemma GetDnsCache_resolvers:
  "GetDnsCache c now d = (x, c') \<Longrightarrow>
     remoteResolver c' = remoteResolver c \<and> localResolver c' = localResolver c"
  by (auto simp: GetDnsCache_def split: option.splits if_splits)

lemma GetDnsCache_entries:
  "GetDnsCache c now d = (x, c') \<Longrightarrow> dnsCaches c' = Some m' \<Longrightarrow> m' k = Some e \<Longrightarrow>
     \<exists>m. dnsCaches c = Some m \<and> m k = Some e"
  by (auto simp: GetDnsCache_def split: option.splits if_splits)

lemma GetDnsCache_hit:
  "GetDnsCache c now d = ((Some p, flag), c') \<Longrightarrow>
     c' = c \<and> (\<exists>m e. dnsCaches c = Some m \<and> m d = Some e \<and> response e = p \<and>
                  now < ttl e \<and> flag = (halfTtl e < now))"
  by (auto simp: GetDnsCache_def split: option.splits if_splits)

lemma lookup_effect_trans:
  assumes "GetDnsCache c now d = ((None, f), c1)"
    and "lookup_effect c1 h rid clk out"
  shows "lookup_effect c h rid clk out"
proof -
  obtain x flag c' h' where out: "out = ((x, flag), c', h')"
    by (metis surj_pair)
  note r = GetDnsCache_resolvers [OF assms(1)]
  have e: "\<And>m' k e. dnsCaches c1 = Some m' \<Longrightarrow> m' k = Some e \<Longrightarrow>
             \<exists>m. dnsCaches c = Some m \<and> m k = Some e"
    using GetDnsCache_entries [OF assms(1)] by blast
  from assms(2) have
    a1: "remoteResolver c' = remoteResolver c1" "localResolver c' = localResolver c1" and
    a2: "\<And>m' k e. dnsCaches c' = Some m' \<Longrightarrow> m' k = Some e \<Longrightarrow>
             \<exists>m. dnsCaches c1 = Some m \<and> m k = Some e" and
    a3: "(case x of
           None \<Rightarrow> h' = h \<and> \<not> flag
         | Some p \<Rightarrow>
             h' = h\<lparr>cells := (cells h)(p := (cells h p)\<lparr>Id := rid\<rparr>)\<rparr> \<and>
             (\<exists>j m e d. dnsCaches c' = Some m \<and> m d = Some e \<and> response e = p \<and>
                         clk j < ttl e \<and> flag = (halfTtl e < clk j)))"
    unfolding lookup_effect_def out by auto
  have "\<And>m' k e. dnsCaches c' = Some m' \<Longrightarrow> m' k = Some e \<Longrightarrow>
             \<exists>m. dnsCaches c = Some m \<and> m k = Some e"
    using a2 e by blast
  then show ?thesis
    unfolding lookup_effect_def out using a1 a3 r by auto
qed

lemma checkCache_from_effect:
  "lookup_effect c h rid clk (checkCache_from c h rid clk i qs)"
proof (induction c h rid clk i qs rule: checkCache_from.induct)
  case (1 c h rid clk i)
  show ?case by (simp add: lookup_effect_def)
next
  case (2 c h rid clk i q qs)
  show ?case
  proof (cases "Qclass q = ClassINET")
    case False
    with 2 show ?thesis by simp
  next
    case True
    obtain x flag c1 where g: "GetDnsCache c (clk i) (TrimSuffix_dot (q_Name q)) = ((x, flag), c1)"
      by (metis surj_pair)
    show ?thesis
    proof (cases x)
      case None
      with 2(1) [OF True, of "(x, flag)" c1 x flag] g True
      have "lookup_effect c1 h rid clk (checkCache_from c1 h rid clk (Suc i) qs)"
        by simp
      from lookup_effect_trans [OF g [unfolded None] this] None g True
      show ?thesis by simp
    next
      case (Some p)
      from GetDnsCache_hit [OF g [unfolded Some]] obtain m e where
        h: "c1 = c" "dnsCaches c = Some m" "m (TrimSuffix_dot (q_Name q)) = Some e"
           "response e = p" "clk i < ttl e" "flag = (halfTtl e < clk i)"
        by blast
      have "checkCache_from c h rid clk i (q # qs) =
              ((Some p, flag), c, h\<lparr>cells := (cells h)(p := (cells h p)\<lparr>Id := rid\<rparr>)\<rparr>)"
        using g True Some h(1) by simp
      with h show ?thesis
        unfolding lookup_effect_def by auto
    qed
  qed
qed

lemma checkCache_effect: "lookup_effect c h (Id r) clk (checkCache c h r clk)"
  using checkCache_from_effect [of c h "Id r" clk 0 "Question r"]
  by (simp add: checkCache_def lookup_effect_def)

lemma GetDnsCache_keeps:
  "cached c k = Some e \<Longrightarrow> now < ttl e \<Longrightarrow> cached (snd (GetDnsCache c now d)) k = Some e"
  by (auto simp: cached_def GetDnsCache_def split: option.splits)

lemma GetDnsCache_on:
  "dnsCaches c \<noteq> None \<Longrightarrow> dnsCaches (snd (GetDnsCache c now d)) \<noteq> None"
  by (auto simp: GetDnsCache_def split: option.splits)

lemma checkCache_from_keeps:
  "cached c k = Some e \<Longrightarrow> (\<forall>j. i \<le> j \<and> j < i + length qs \<longrightarrow> clk j < ttl e) \<Longrightarrow>
     cached (fst (snd (checkCache_from c h rid clk i qs))) k = Some e"
proof (induction c h rid clk i qs rule: checkCache_from.induct)
  case (1 c h rid clk i)
  then show ?case by simp
next
  case (2 c h rid clk i q qs)
  have later: "\<forall>j. Suc i \<le> j \<and> j < Suc i + length qs \<longrightarrow> clk j < ttl e"
    using 2(4) by simp
  show ?case
  proof (cases "Qclass q = ClassINET")
    case False
    with 2(2) [OF False 2(3) later] show ?thesis by simp
  next
    case True
    obtain x flag c1 where g: "GetDnsCache c (clk i) (TrimSuffix_dot (q_Name q)) = ((x, flag), c1)"
      by (metis surj_pair)
    have "clk i < ttl e"
      using 2(4) by simp
    from GetDnsCache_keeps [OF 2(3) this, of "TrimSuffix_dot (q_Name q)"] g
    have k1: "cached c1 k = Some e" by simp
    show ?thesis
    proof (cases x)
      case None
      from 2(1) [OF True, of "(x, flag)" c1 x flag] g None k1 later
      have "cached (fst (snd (checkCache_from c1 h rid clk (Suc i) qs))) k = Some e"
        by simp
      with g None True show ?thesis by simp
    next
      case (Some p)
      with g True k1 show ?thesis by simp
    qed
  qed
qed

lemma checkCache_keeps:
  assumes "cached c k = Some e" and "\<forall>j < length (Question r). clk j < ttl e"
  shows "cached (fst (snd (checkCache c h r clk))) k = Some e"
  using checkCache_from_keeps [OF assms(1), of 0 "Question r" clk h "Id r"] assms
  by (simp add: checkCache_def)

lemma checkCache_entries:
  "cached (fst (snd (checkCache c h r clk))) k = Some e \<Longrightarrow> cached c k = Some e"
proof -
  assume a: "cached (fst (snd (checkCache c h r clk))) k = Some e"
  obtain x flag c' h' where out: "checkCache c h r clk = ((x, flag), c', h')"
    by (metis surj_pair)
  from a out obtain m' where m': "dnsCaches c' = Some m'" "m' k = Some e"
    by (auto simp: cached_def split: option.splits)
  from checkCache_effect [of c h r clk] out
  have "lookup_effect c h (Id r) clk ((x, flag), c', h')"
    by simp
  then have "\<forall>m' k e. dnsCaches c' = Some m' \<and> m' k = Some e \<longrightarrow>
                  (\<exists>m. dnsCaches c = Some m \<and> m k = Some e)"
    unfolding lookup_effect_def by blast
  with m' obtain m where "dnsCaches c = Some m" "m k = Some e"
    by blast
  then show ?thesis
    by (simp add: cached_def)
qed

lemma checkCache_store:
  "snd (snd (checkCache c h r clk)) =
     (case fst (fst (checkCache c h r clk)) of
        None \<Rightarrow> h
      | Some p \<Rightarrow> h\<lparr>cells := (cells h)(p := (cells h p)\<lparr>Id := Id r\<rparr>)\<rparr>)"
  using checkCache_effect [of c h r clk]
  by (cases "checkCache c h r clk") (auto simp: lookup_effect_def split: option.splits)

lemma cache_run_entries:
  assumes "cache_run op (c, h) = (c', h')" and "cached c' k = Some e"
  shows "cached c k = Some e \<or> (\<exists>now1 now2 p t. op = OpAdd now1 now2 k p t)"
proof (cases op)
  case (OpAdd now1 now2 d p t)
  with assms show ?thesis
    by (auto simp: AddDnsCache_def cached_def split: option.splits if_splits)
next
  case (OpDel d)
  with assms show ?thesis
    by (auto simp: DelDnsCache_def cached_def split: option.splits if_splits)
next
  case (OpGet now d)
  with assms show ?thesis
    by (auto simp: GetDnsCache_def cached_def split: option.splits if_splits)
next
  case (OpCheck r clk)
  with assms checkCache_entries [of c h r clk k e] show ?thesis
    by auto
next
  case (OpReload cfg)
  with assms show ?thesis
    by (auto simp: Reload_def Let_def cached_def split: option.splits if_splits)
qed

lemma cache_run_store:
  assumes "cache_run op (c, h) = (c', h')" and "cells h' p \<noteq> cells h p"
  shows "\<exists>r clk. op = OpCheck r clk \<and> fst (fst (checkCache c h r clk)) = Some p \<and>
                 cells h' p = (cells h p)\<lparr>Id := Id r\<rparr>"
proof (cases op)
  case (OpCheck r clk)
  with assms(1) have h': "h' = snd (snd (checkCache c h r clk))"
    by (cases "checkCache c h r clk") auto
  show ?thesis
  proof (cases "fst (fst (checkCache c h r clk))")
    case None
    with h' checkCache_store [of c h r clk] assms(2) show ?thesis by simp
  next
    case (Some q)
    with h' checkCache_store [of c h r clk]
    have "h' = h\<lparr>cells := (cells h)(q := (cells h q)\<lparr>Id := Id r\<rparr>)\<rparr>" by simp
    with assms(2) Some OpCheck show ?thesis
      by (cases "q = p") auto
  qed
qed (use assms in auto)

lemma cache_run_contents:
  "cache_run op (c, h) = (c', h') \<Longrightarrow>
     Question (cells h' p) = Question (cells h p) \<and> Answer (cells h' p) = Answer (cells h p)"
  using cache_run_store [of op c h c' h' p]
  by (cases "cells h' p = cells h p") auto

lemma cache_runs_contents:
  "Question (cells (snd (fold cache_run ops (c, h))) p) = Question (cells h p) \<and>
   Answer (cells (snd (fold cache_run ops (c, h))) p) = Answer (cells h p)"
proof (induction ops arbitrary: c h)
  case Nil
  show ?case by simp
next
  case (Cons op ops)
  obtain c1 h1 where s: "cache_run op (c, h) = (c1, h1)"
    by (metis surj_pair)
  from Cons [of c1 h1] cache_run_contents [OF s, of p] s show ?case
    by simp
qed

text \<open>
  C5, as the claim states it, fails: serving a hit writes the query's transaction id
  into the message the cache entry points to. The cached message is stored with id 1;
  after a fresh hit for a query with id 7 the stored message has id 7.
\<close>

theorem checkCache_rewrites_stored_id:
  "Id (cells example_store 0) = 1 \<and>
   fst (checkCache cached_server example_store (example_query 7)
          (lookup_now (example_dns_world 100000000000))) = (Some 0, False) \<and>
   Id (cells (snd (snd (checkCache cached_server example_store (example_query 7)
                          (lookup_now (example_dns_world 100000000000))))) 0) = 7"
  by code_simp

text \<open>
  C5, amended. The operations on the cache are \<open>AddDnsCache\<close>, \<open>DelDnsCache\<close>,
  \<open>GetDnsCache\<close>, the lookup \<open>checkCache\<close> of a query, and \<open>Reload\<close>. No operation
  modifies an entry once it is stored: whatever entry the cache holds under a domain
  after an operation is the very entry (the same message, the same two deadlines) that
  it held under that domain before, unless the operation is an \<open>AddDnsCache\<close> for that
  domain, which puts a new entry in its place. A lookup leaves in the cache every entry
  that has not expired at the clock readings of the lookup. No sequence of operations
  changes the questions or the answers of any message, stored or not. The one write to a
  stored message is that of \<open>checkCache\<close> when it serves a hit: it overwrites the
  transaction id of the message it returns with the id of the query, and no operation
  changes any other message. So two successive lookups that both return the same stored
  message observe identical contents except for the transaction id, which after each
  lookup is the id of the query just served.
\<close>

theorem checkCache_store_effect:
  assumes "cache_run op (c, h) = (c', h')"
  shows "(\<forall>k e. cached c' k = Some e \<longrightarrow>
            cached c k = Some e \<or> (\<exists>now1 now2 p t. op = OpAdd now1 now2 k p t)) \<and>
         (\<forall>k e r clk. op = OpCheck r clk \<and> cached c k = Some e \<and>
            (\<forall>j < length (Question r). clk j < ttl e) \<longrightarrow> cached c' k = Some e) \<and>
         (\<forall>k e now d. op = OpGet now d \<and> cached c k = Some e \<and> now < ttl e \<longrightarrow>
            cached c' k = Some e) \<and>
         (\<forall>ops p. Question (cells (snd (fold cache_run ops (c, h))) p) = Question (cells h p) \<and>
                  Answer (cells (snd (fold cache_run ops (c, h))) p) = Answer (cells h p)) \<and>
         (\<forall>p. cells h' p \<noteq> cells h p \<longrightarrow>
            (\<exists>r clk. op = OpCheck r clk \<and> fst (fst (checkCache c h r clk)) = Some p \<and>
                      cells h' p = (cells h p)\<lparr>Id := Id r\<rparr>)) \<and>
         (\<forall>r clk p. op = OpCheck r clk \<and> fst (fst (checkCache c h r clk)) = Some p \<longrightarrow>
            cells h' p = (cells h p)\<lparr>Id := Id r\<rparr> \<and>
            (\<forall>r2 clk2. fst (fst (checkCache c' h' r2 clk2)) = Some p \<longrightarrow>
               cells (snd (snd (checkCache c' h' r2 clk2))) p = (cells h p)\<lparr>Id := Id r2\<rparr>))"
proof (intro conjI allI impI)
  fix k e
  assume "cached c' k = Some e"
  with assms show "cached c k = Some e \<or> (\<exists>now1 now2 p t. op = OpAdd now1 now2 k p t)"
    by (rule cache_run_entries)
next
  fix k e r clk
  assume a: "op = OpCheck r clk \<and> cached c k = Some e \<and>
             (\<forall>j < length (Question r). clk j < ttl e)"
  with assms have "c' = fst (snd (checkCache c h r clk))"
    by (cases "checkCache c h r clk") auto
  with a checkCache_keeps [of c k e r clk h] show "cached c' k = Some e"
    by simp
next
  fix k e now d
  assume a: "op = OpGet now d \<and> cached c k = Some e \<and> now < ttl e"
  with assms have "c' = snd (GetDnsCache c now d)"
    by auto
  with a GetDnsCache_keeps [of c k e now d] show "cached c' k = Some e"
    by simp
next
  fix ops p
  show "Question (cells (snd (fold cache_run ops (c, h))) p) = Question (cells h p)"
    using cache_runs_contents [of ops c h p] by simp
  show "Answer (cells (snd (fold cache_run ops (c, h))) p) = Answer (cells h p)"
    using cache_runs_contents [of ops c h p] by simp
next
  fix p
  assume "cells h' p \<noteq> cells h p"
  with assms show "\<exists>r clk. op = OpCheck r clk \<and> fst (fst (checkCache c h r clk)) = Some p \<and>
                      cells h' p = (cells h p)\<lparr>Id := Id r\<rparr>"
    by (rule cache_run_store)
next
  fix r clk p
  assume a: "op = OpCheck r clk \<and> fst (fst (checkCache c h r clk)) = Some p"
  with assms have "h' = snd (snd (checkCache c h r clk))"
    by (cases "checkCache c h r clk") auto
  with a checkCache_store [of c h r clk]
  have h': "h' = h\<lparr>cells := (cells h)(p := (cells h p)\<lparr>Id := Id r\<rparr>)\<rparr>"
    by simp
  then show "cells h' p = (cells h p)\<lparr>Id := Id r\<rparr>"
    by simp
  fix r2 clk2
  assume "fst (fst (checkCache c' h' r2 clk2)) = Some p"
  with checkCache_store [of c' h' r2 clk2] h'
  show "cells (snd (snd (checkCache c' h' r2 clk2))) p = (cells h p)\<lparr>Id := Id r2\<rparr>"
    by simp
qed

theorem checkCache_store_effect_witness:
  "cells (snd (snd (checkCache cached_server example_store (example_query 7)
                      (lookup_now (example_dns_world 100000000000))))) 0 =
     (cells example_store 0)\<lparr>Id := 7\<rparr> \<and>
   cells (snd (snd (checkCache cached_server example_store (example_query 7)
                      (lookup_now (example_dns_world 100000000000))))) 1 =
     cells example_store 1 \<and>
   cached (fst (snd (checkCache cached_server example_store (example_query 7)
                      (lookup_now (example_dns_world 100000000000))))) ''example.com'' =
     Some \<lparr>response = 0, halfTtl = 150000000000, ttl = 300000000000\<rparr> \<and>
   cells (snd (snd (checkCache
       (fst (snd (checkCache cached_server example_store (example_query 7)
                    (lookup_now (example_dns_world 100000000000)))))
       (snd (snd (checkCache cached_server example_store (example_query 7)
                    (lookup_now (example_dns_world 100000000000)))))
       (example_query 8) (lookup_now (example_dns_world 200000000000))))) 0 =
     (cells example_store 0)\<lparr>Id := 8\<rparr>"
proof -
  let ?clk = "lookup_now (example_dns_world 100000000000)"
  let ?clk2 = "lookup_now (example_dns_world 200000000000)"
  let ?out = "checkCache cached_server example_store (example_query 7) ?clk"
  let ?e = "\<lparr>response = 0, halfTtl = 150000000000, ttl = 300000000000\<rparr>"
  have run: "cache_run (OpCheck (example_query 7) ?clk) (cached_server, example_store) =
               (fst (snd ?out), snd (snd ?out))"
    by simp
  have hit: "fst (fst ?out) = Some 0"
    by code_simp
  have hit2: "fst (fst (checkCache (fst (snd ?out)) (snd (snd ?out)) (example_query 8) ?clk2)) =
                Some 0"
    by code_simp
  have entry: "cached cached_server ''example.com'' = Some ?e"
    by (simp add: cached_def cached_server_def example_server_def AddDnsCache_def Second_def)
  have fresh: "\<forall>j < length (Question (example_query 7)). ?clk j < ttl ?e"
    by (simp add: example_dns_world_def)
  have rid: "Id (example_query 7) = 7" "Id (example_query 8) = 8"
    by (simp_all add: example_query_def)
  note th = checkCache_store_effect [OF run]
  from th [THEN conjunct2, THEN conjunct2, THEN conjunct2, THEN conjunct2, THEN conjunct2,
           rule_format, of "example_query 7" ?clk 0] hit
  have a: "cells (snd (snd ?out)) 0 = (cells example_store 0)\<lparr>Id := Id (example_query 7)\<rparr>"
    and b: "\<And>r2 clk2. fst (fst (checkCache (fst (snd ?out)) (snd (snd ?out)) r2 clk2)) = Some 0 \<Longrightarrow>
              cells (snd (snd (checkCache (fst (snd ?out)) (snd (snd ?out)) r2 clk2))) 0 =
                (cells example_store 0)\<lparr>Id := Id r2\<rparr>"
    by simp_all
  have other: "cells (snd (snd ?out)) 1 = cells example_store 1"
  proof (rule ccontr)
    assume "cells (snd (snd ?out)) 1 \<noteq> cells example_store 1"
    with th [THEN conjunct2, THEN conjunct2, THEN conjunct2, THEN conjunct2, THEN conjunct1,
             rule_format, of 1] hit
    show False by auto
  qed
  from th [THEN conjunct2, THEN conjunct1, rule_format, of "example_query 7" ?clk
             "''example.com''" ?e] entry fresh
  have kept: "cached (fst (snd ?out)) ''example.com'' = Some ?e"
    by simp
  from a b [OF hit2] other kept show ?thesis
    unfolding rid by simp
qed

subsection \<open>Serving a stale hit\<close>


lemma getResolver_remote_only:
  "remoteResolver c' = remoteResolver c \<Longrightarrow> getResolver c' True sd = getResolver c True sd"
  by (simp add: getResolver_def Let_def split: sum.splits)










section \<open>Properties of the tunnel backend\<close>

subsection \<open>DNS exchange\<close>

lemma exchangeDNS_short:
  assumes "slice buffer 0 totalLen = Inr out" and "write_result w = None"
    and "read_result w = Inr dgram" and "length dgram \<le> length buffer"
    and "int (length dgram) \<le> addrLen"
  shows "fst (exchangeDNS w dstConn remote buffer addrLen totalLen) =
           Inl (Failure ''Read DNS query empty'')"
  using assms by (simp add: exchangeDNS_def read_into_def Let_def)

lemma exchangeDNS_response:
  assumes "slice buffer 0 totalLen = Inr out" and "write_result w = None"
    and "read_result w = Inr dgram" and "length dgram \<le> length buffer"
    and "0 \<le> addrLen" and "addrLen < int (length dgram)"
  shows "fst (exchangeDNS w dstConn remote buffer addrLen totalLen) =
           Inr (drop (nat addrLen) dgram @ replicate (nat addrLen) 0)"
proof -
  let ?n = "length dgram"
  have rd: "read_into buffer dgram = (int ?n, dgram @ drop ?n buffer)"
    using assms(4) by (simp add: read_into_def copy_def min_def)
  have sl: "slice (dgram @ drop ?n buffer) addrLen (int ?n) = Inr (drop (nat addrLen) dgram)"
    using assms(4,5,6) by (simp add: slice_def)
  have cp: "copy (replicate ?n (0::byte)) (drop (nat addrLen) dgram) =
              drop (nat addrLen) dgram @ replicate (nat addrLen) 0"
    using assms(5,6) by (simp add: copy_def)
  show ?thesis
    using assms(1,2,3,6) rd sl cp by (simp add: exchangeDNS_def Let_def)
qed

text \<open>
  C1. A datagram no longer than the header is refused (\<open>exchangeDNS_short\<close>). For a
  longer one the response is allocated with \<open>make([]byte, n)\<close> and the tail is copied
  into it, so the response is the tail followed by as many zero bytes as the header is
  long (\<open>exchangeDNS_response\<close>). Here the header has 7 bytes and the datagram 9: the
  response has 9 bytes, not 2.
\<close>

theorem RelayDNS_response_padded:
  "fst (RelayDNS example_backend example_world ''192.168.1.5:40000'' ''8.8.8.8:53''
          [18, 52] small_pool (5 * Second)) =
     Inr [170, 187, 0, 0, 0, 0, 0, 0, 0]"
  by code_simp

subsection \<open>Buffer discipline of the UDP relay\<close>

lemma wrap64_id: "- (2 ^ 63) \<le> x \<Longrightarrow> x < 2 ^ 63 \<Longrightarrow> wrap64 x = x"
  by (simp add: wrap64_def)

lemma newUDPProxy_events:
  "newUDPProxy c w udpKey srcAddr dstAddr = (r, evs) \<Longrightarrow>
     PoolGet \<notin> set evs \<and> PoolPut \<notin> set evs \<and> (\<forall>n. Make n \<notin> set evs)"
  by (auto simp: newUDPProxy_def split: sum.splits)

lemma obtainUDPProxy_events:
  "obtainUDPProxy c w udpKey srcAddr dstAddr = (r, evs) \<Longrightarrow>
     PoolGet \<notin> set evs \<and> PoolPut \<notin> set evs \<and> (\<forall>n. Make n \<notin> set evs)"
  using newUDPProxy_events [of c w udpKey srcAddr dstAddr r evs]
  by (auto simp: obtainUDPProxy_def split: option.splits)

lemma copy_short: "length src \<le> length dst \<Longrightarrow> copy dst src = src @ drop (length src) dst"
  by (simp add: copy_def)

lemma slice_ok:
  "0 \<le> lo \<Longrightarrow> lo \<le> hi \<Longrightarrow> hi \<le> int (length xs) \<Longrightarrow>
     slice xs lo hi = Inr (take (nat (hi - lo)) (drop (nat lo) xs))"
  by (simp add: slice_def)

lemma copy_into_ok:
  "0 \<le> lo \<Longrightarrow> lo \<le> hi \<Longrightarrow> hi \<le> int (length buf) \<Longrightarrow>
     copy_into buf lo hi src =
       Inr (take (nat lo) buf @ copy (take (nat (hi - lo)) (drop (nat lo) buf)) src @ drop (nat hi) buf)"
  by (simp add: copy_into_def slice_def)

lemma Get_length:
  "\<forall>b \<in> set (free p). length b = bufSize p \<Longrightarrow> length (fst (Get p)) = bufSize p"
  by (cases "free p") (simp_all add: Get_def)

lemma sendOneShot_ok:
  assumes "0 \<le> dataLen" and "dataLen \<le> int (length data)"
    and "int (length (header' udpProxy)) + dataLen \<le> maxAlloc"
  shows "sendOneShot w udpProxy remote data dataLen (int (length (header' udpProxy)))
           (int (length (header' udpProxy)) + dataLen) =
         ((case write_result w of Some e \<Rightarrow> Inl e | None \<Rightarrow> Inr ()),
          [Make (length (header' udpProxy) + nat dataLen),
           WriteTo (dst' udpProxy) (header' udpProxy @ take (nat dataLen) data) remote])"
proof -
  let ?h = "header' udpProxy"
  let ?hl = "int (length ?h)"
  define n where "n = nat dataLen"
  have dl: "dataLen = int n" and n: "n \<le> length data" and mn: "min (length data) n = n"
    using assms(1,2) by (simp_all add: n_def)
  have tot: "nat (?hl + int n) = length ?h + n"
    by simp
  have mk: "make_bytes (?hl + int n) = Inr (replicate (length ?h + n) 0)"
    using assms(3) by (simp add: make_bytes_def dl)
  have c1: "copy_into (replicate (length ?h + n) (0::byte)) 0 ?hl ?h = Inr (?h @ replicate n 0)"
    by (simp add: copy_into_ok copy_def)
  have s1: "slice (?h @ replicate n (0::byte)) ?hl (?hl + int n) = Inr (replicate n 0)"
    by (simp add: slice_ok)
  have s2: "slice data 0 (int n) = Inr (take n data)"
    using n by (simp add: slice_ok)
  have c2: "copy_into (?h @ replicate n (0::byte)) ?hl (?hl + int n) (take n data) =
              Inr (?h @ take n data)"
    by (simp add: copy_into_ok copy_def mn)
  show ?thesis
    by (simp only: sendOneShot_def dl mk sum.case c1 s1 s2 c2 tot)
      (simp add: n_def split: option.splits)
qed

lemma sendPooled_ok:
  assumes "\<forall>b \<in> set (free pool). length b = bufSize pool"
    and "0 \<le> dataLen" and "dataLen \<le> int (length data)"
    and "int (length (header' udpProxy)) + dataLen \<le> GetBufferSize pool"
  shows "sendPooled w udpProxy remote pool data dataLen (int (length (header' udpProxy)))
           (int (length (header' udpProxy)) + dataLen) =
         ((case write_result w of Some e \<Rightarrow> Inl e | None \<Rightarrow> Inr ()),
          Put (snd (Get pool))
            (header' udpProxy @ take (nat dataLen) data @
             drop (length (header' udpProxy) + nat dataLen) (fst (Get pool))),
          [PoolGet, WriteTo (dst' udpProxy) (header' udpProxy @ take (nat dataLen) data) remote,
           PoolPut])"
proof -
  let ?h = "header' udpProxy"
  let ?hl = "int (length ?h)"
  let ?b = "fst (Get pool)"
  define n where "n = nat dataLen"
  have dl: "dataLen = int n" and n: "n \<le> length data" and mn: "min (length data) n = n"
    using assms(2,3) by (simp_all add: n_def)
  have len: "length ?b = bufSize pool"
    using assms(1) by (rule Get_length)
  have fit: "length ?h + n \<le> length ?b"
    using assms(4) len by (simp add: GetBufferSize_def dl)
  have b1: "copy ?b ?h = ?h @ drop (length ?h) ?b"
    using fit by (simp add: copy_short)
  let ?b1 = "?h @ drop (length ?h) ?b"
  have l1: "int (length ?b1) = int (length ?b)"
    using fit by simp
  have s1: "slice ?b1 ?hl (int (length ?b)) = Inr (drop (length ?h) ?b)"
    using fit by (simp add: slice_ok)
  have s2: "slice data 0 (int n) = Inr (take n data)"
    using n by (simp add: slice_ok)
  have mw: "min (length ?b - length ?h) n = n"
    using fit by simp
  have c2: "copy_into ?b1 ?hl (int (length ?b)) (take n data) =
              Inr (?h @ take n data @ drop (length ?h + n) ?b)"
    using fit by (simp add: copy_into_ok copy_def mn mw add.commute)
  let ?b2 = "?h @ take n data @ drop (length ?h + n) ?b"
  have tot: "nat (?hl + int n) = length ?h + n"
    by simp
  have s3: "slice ?b2 0 (?hl + int n) = Inr (?h @ take n data)"
    using fit by (simp add: slice_ok mn tot del: nat_int_add)
  obtain nb p1 where g: "Get pool = (nb, p1)"
    by (cases "Get pool")
  then have nb: "?b = nb" "snd (Get pool) = p1" by simp_all
  note facts = b1 [unfolded nb] l1 [unfolded nb] s1 [unfolded nb] s2 c2 [unfolded nb]
    s3 [unfolded nb]
  show ?thesis
    by (simp only: sendPooled_def g dl Let_def prod.case facts sum.case nb)
      (simp add: n_def split: option.splits)
qed

text \<open>
  C2, as the claim states it, fails for a payload as long as a pool buffer: with 16-byte
  buffers, a 16-byte payload and the 7-byte header the relay allocates 23 bytes with
  \<open>make\<close> and never touches the pool.
\<close>

theorem RelayUDPData_full_datagram:
  "GetBufferSize small_pool = 16 \<and>
   snd (snd (RelayUDPData example_backend example_world ''192.168.1.5:40000'' ''8.8.8.8:53''
               small_pool (replicate 16 7) 16)) =
     [ListenPacket, PacketConn 1, DialTransparentUDP ''8.8.8.8:53'',
      SpawnReader ''192.168.1.5:40000->8.8.8.8:53''
        \<lparr>src' = 2, dst' = 1, srcAddr' = ''192.168.1.5:40000'',
           header' = [1, 8, 8, 8, 8, 0, 53], timeout' = 60000000000\<rparr>,
      SetReadDeadline 1, Make 23,
      WriteTo 1 [1, 8, 8, 8, 8, 0, 53, 7, 7, 7, 7, 7, 7, 7, 7, 7, 7, 7, 7, 7, 7, 7, 7]
        ''10.0.0.1:8388'']"
  by code_simp

text \<open>
  C2, amended. For every \<open>RelayUDPData\<close> call that has a NAT entry to send through
  (found or created), with \<open>dataLen\<close> between 0 and the length of the payload buffer,
  header length plus \<open>dataLen\<close> within what \<open>make\<close> can allocate, and a pool whose
  buffers all have the pool's buffer size: if header length plus \<open>dataLen\<close> is at most
  the pool's buffer size, one buffer is borrowed from the pool, header and payload are
  written to the remote from it, the buffer is returned to the pool and no one-shot
  buffer is allocated; otherwise a one-shot buffer of exactly header length plus
  \<open>dataLen\<close> bytes is allocated, header and payload are written from it, and the pool
  is left as it was. Either way the call returns the error of the write, or none. A
  payload as long as a pool buffer therefore takes the one-shot path whenever the header
  is not empty.
\<close>

theorem RelayUDPData_buffer_choice:
  assumes entry: "obtainUDPProxy c w (computeUDPKey srcAddr dstAddr) srcAddr dstAddr =
                    (Inr udpProxy, evs0)"
    and pool: "\<forall>b \<in> set (free leakyBuffer). length b = bufSize leakyBuffer"
    and lo: "0 \<le> dataLen"
    and hi: "dataLen \<le> int (length data)"
    and alloc: "int (length (header' udpProxy)) + dataLen \<le> maxAlloc"
  shows "RelayUDPData c w srcAddr dstAddr leakyBuffer data dataLen =
           (if int (length (header' udpProxy)) + dataLen \<le> GetBufferSize leakyBuffer then
              ((case write_result w of Some e \<Rightarrow> Inl e | None \<Rightarrow> Inr ()),
               Put (snd (Get leakyBuffer))
                 (header' udpProxy @ take (nat dataLen) data @
                  drop (length (header' udpProxy) + nat dataLen) (fst (Get leakyBuffer))),
               evs0 @ [SetReadDeadline (dst' udpProxy), PoolGet,
                       WriteTo (dst' udpProxy) (header' udpProxy @ take (nat dataLen) data)
                         (udpAddr c),
                       PoolPut])
            else
              ((case write_result w of Some e \<Rightarrow> Inl e | None \<Rightarrow> Inr ()),
               leakyBuffer,
               evs0 @ [SetReadDeadline (dst' udpProxy),
                       Make (length (header' udpProxy) + nat dataLen),
                       WriteTo (dst' udpProxy) (header' udpProxy @ take (nat dataLen) data)
                         (udpAddr c)])) \<and>
         PoolGet \<notin> set evs0 \<and> PoolPut \<notin> set evs0 \<and> (\<forall>n. Make n \<notin> set evs0) \<and>
         (dataLen = GetBufferSize leakyBuffer \<and> header' udpProxy \<noteq> [] \<longrightarrow>
            PoolGet \<notin> set (snd (snd (RelayUDPData c w srcAddr dstAddr leakyBuffer data dataLen))))"
proof -
  let ?total = "int (length (header' udpProxy)) + dataLen"
  have "maxAlloc < 2 ^ 63"
    by (simp add: maxAlloc_def)
  with alloc lo have total: "wrap64 ?total = ?total"
    by (intro wrap64_id) simp_all
  note e0 = obtainUDPProxy_events [OF entry]
  have run: "RelayUDPData c w srcAddr dstAddr leakyBuffer data dataLen =
           (if ?total \<le> GetBufferSize leakyBuffer then
              ((case write_result w of Some e \<Rightarrow> Inl e | None \<Rightarrow> Inr ()),
               Put (snd (Get leakyBuffer))
                 (header' udpProxy @ take (nat dataLen) data @
                  drop (length (header' udpProxy) + nat dataLen) (fst (Get leakyBuffer))),
               evs0 @ [SetReadDeadline (dst' udpProxy), PoolGet,
                       WriteTo (dst' udpProxy) (header' udpProxy @ take (nat dataLen) data)
                         (udpAddr c),
                       PoolPut])
            else
              ((case write_result w of Some e \<Rightarrow> Inl e | None \<Rightarrow> Inr ()),
               leakyBuffer,
               evs0 @ [SetReadDeadline (dst' udpProxy),
                       Make (length (header' udpProxy) + nat dataLen),
                       WriteTo (dst' udpProxy) (header' udpProxy @ take (nat dataLen) data)
                         (udpAddr c)]))"
  proof (cases "?total \<le> GetBufferSize leakyBuffer")
    case True
    from sendPooled_ok [OF pool lo hi True, of w "udpAddr c"] entry total True
    show ?thesis
      by (simp add: RelayUDPData_def Let_def)
  next
    case False
    from sendOneShot_ok [OF lo hi alloc, of w "udpAddr c"] entry total False
    show ?thesis
      by (simp add: RelayUDPData_def Let_def)
  qed
  have last: "PoolGet \<notin> set (snd (snd (RelayUDPData c w srcAddr dstAddr leakyBuffer data dataLen)))"
    if "dataLen = GetBufferSize leakyBuffer \<and> header' udpProxy \<noteq> []"
  proof -
    from that have "\<not> ?total \<le> GetBufferSize leakyBuffer"
      by (cases "header' udpProxy") simp_all
    with run e0 show ?thesis by simp
  qed
  from run e0 last show ?thesis
    by blast
qed

theorem RelayUDPData_buffer_choice_witness:
  "RelayUDPData example_backend example_world ''192.168.1.5:40000'' ''8.8.8.8:53''
     small_pool (replicate 16 7) 9 =
     (Inr (), small_pool\<lparr>free := [header_8888 @ replicate 9 7]\<rparr>,
      [ListenPacket, PacketConn 1, DialTransparentUDP ''8.8.8.8:53'',
       SpawnReader ''192.168.1.5:40000->8.8.8.8:53''
         \<lparr>src' = 2, dst' = 1, srcAddr' = ''192.168.1.5:40000'',
            header' = header_8888, timeout' = 60000000000\<rparr>,
       SetReadDeadline 1, PoolGet, WriteTo 1 (header_8888 @ replicate 9 7) ''10.0.0.1:8388'',
       PoolPut]) \<and>
   RelayUDPData example_backend example_world ''192.168.1.5:40000'' ''8.8.8.8:53''
     small_pool (replicate 16 7) 10 =
     (Inr (), small_pool,
      [ListenPacket, PacketConn 1, DialTransparentUDP ''8.8.8.8:53'',
       SpawnReader ''192.168.1.5:40000->8.8.8.8:53''
         \<lparr>src' = 2, dst' = 1, srcAddr' = ''192.168.1.5:40000'',
            header' = header_8888, timeout' = 60000000000\<rparr>,
       SetReadDeadline 1, Make 17, WriteTo 1 (header_8888 @ replicate 10 7) ''10.0.0.1:8388''])"
proof -
  let ?e = "\<lparr>src' = 2, dst' = 1, srcAddr' = ''192.168.1.5:40000'',
             header' = header_8888, timeout' = 60000000000\<rparr>"
  let ?key = "computeUDPKey ''192.168.1.5:40000'' ''8.8.8.8:53''"
  have key: "?key = ''192.168.1.5:40000->8.8.8.8:53''"
    by (simp add: computeUDPKey_def)
  have entry: "obtainUDPProxy example_backend example_world ?key ''192.168.1.5:40000'' ''8.8.8.8:53'' =
      (Inr ?e, [ListenPacket, PacketConn 1, DialTransparentUDP ''8.8.8.8:53'', SpawnReader ?key ?e])"
    by (simp add: obtainUDPProxy_def newUDPProxy_def createUDPProxyEntry_def example_backend_def
        example_world_def Second_def)
  have pool: "\<forall>b \<in> set (free small_pool). length b = bufSize small_pool"
    by (simp add: small_pool_def)
  have size: "GetBufferSize small_pool = 16" and len: "length header_8888 = 7"
    and get: "Get small_pool = (replicate 16 0, small_pool)"
    and wr: "write_result example_world = None"
    and remote: "udpAddr example_backend = ''10.0.0.1:8388''"
    by (simp_all add: GetBufferSize_def small_pool_def header_8888_def Get_def example_world_def
        example_backend_def)
  have put: "Put small_pool (header_8888 @ replicate 9 7) =
               small_pool\<lparr>free := [header_8888 @ replicate 9 7]\<rparr>"
    by (simp add: Put_def small_pool_def)
  have lo: "(0::int) \<le> 9" "(0::int) \<le> 10"
    and hi: "(9::int) \<le> int (length (replicate 16 (7::byte)))"
            "(10::int) \<le> int (length (replicate 16 (7::byte)))"
    by simp_all
  have alloc: "int (length (header' ?e)) + 9 \<le> maxAlloc" "int (length (header' ?e)) + 10 \<le> maxAlloc"
    by (simp_all add: header_8888_def maxAlloc_def)
  show ?thesis
    using RelayUDPData_buffer_choice [OF entry pool lo(1) hi(1) alloc(1)]
      RelayUDPData_buffer_choice [OF entry pool lo(2) hi(2) alloc(2)]
    by (simp add: size len get wr remote put key)
qed

subsection \<open>Fallback from the mux transport\<close>





section \<open>Properties of the tasks\<close>

subsection \<open>The two copies of a plain relay\<close>









subsection \<open>A NAT entry, its reader and \<open>Stop\<close>\<close>










end
